theory Spec2Isabelle
  imports Main
begin

section \<open>Errors\<close>

text \<open>
  \<open>HTTPException status detail\<close> is the structured error the handlers raise on purpose.
  The other constructors are exceptions that escape a handler unhandled: \<open>InvalidId\<close> is
  raised by \<open>ObjectId(s)\<close> on a malformed string, \<open>AttributeError\<close> by \<open>None.get(...)\<close>,
  \<open>ValidationError\<close> by the constructor of a schema model.
\<close>

datatype error = HTTPException nat string | InvalidId | AttributeError | ValidationError

section \<open>Constants of main.py\<close>

definition ALLOWED_DOMAINS :: "string list" where
  "ALLOWED_DOMAINS = [''polito.it'', ''unito.it'']"

definition MAGIC_TOKEN_TTL :: int where
  "MAGIC_TOKEN_TTL = 15 * 60"

definition MIN_PHOTOS :: nat where
  "MIN_PHOTOS = 3"

definition MAX_PHOTOS :: nat where
  "MAX_PHOTOS = 8"

definition BANNED_WORDS :: "string list" where
  "BANNED_WORDS = [''slur1'', ''slur2'', ''badword'']"

section \<open>Strings\<close>

text \<open>\<open>str.lower()\<close>, on the ASCII range (a \<open>char\<close> is one byte).\<close>

definition lower_char :: "char \<Rightarrow> char" where
  "lower_char c =
     (if 65 \<le> (of_char c :: nat) \<and> (of_char c :: nat) \<le> 90
      then char_of ((of_char c :: nat) + 32) else c)"

definition lower :: "string \<Rightarrow> string" where
  "lower s = map lower_char s"

text \<open>\<open>s.startswith(w)\<close>, \<open>s.endswith(w)\<close> and the substring test \<open>w in s\<close>.\<close>

fun startswith :: "string \<Rightarrow> string \<Rightarrow> bool" where
  "startswith s [] = True"
| "startswith [] (c # w) = False"
| "startswith (d # s) (c # w) = (d = c \<and> startswith s w)"

definition endswith :: "string \<Rightarrow> string \<Rightarrow> bool" where
  "endswith s w = startswith (rev s) (rev w)"

fun contains :: "string \<Rightarrow> string \<Rightarrow> bool" where
  "contains [] w = (w = [])"
| "contains (d # s) w = (startswith (d # s) w \<or> contains s w)"

section \<open>Object ids\<close>

text \<open>
  The store gives every document of a collection an \<open>_id\<close> that no other document of
  the collection has. Documents are never deleted by this program, so the model takes the
  position of a document in its collection as its \<open>_id\<close>. \<open>ObjectId(s)\<close> accepts exactly
  the strings of 24 hexadecimal digits (either case) and raises \<open>InvalidId\<close> on any
  other; \<open>str(oid)\<close> prints 24 lower-case digits.
\<close>

definition hex_value :: "char \<Rightarrow> nat option" where
  "hex_value c =
     map_of (zip ''0123456789abcdefABCDEF''
               [0, 1, 2, 3, 4, 5, 6, 7, 8, 9, 10, 11, 12, 13, 14, 15, 10, 11, 12, 13, 14, 15]) c"

definition is_hex :: "char \<Rightarrow> bool" where
  "is_hex c = (case hex_value c of None \<Rightarrow> False | Some v \<Rightarrow> True)"

definition hex_step :: "nat \<Rightarrow> char \<Rightarrow> nat" where
  "hex_step n c = 16 * n + (case hex_value c of None \<Rightarrow> 0 | Some v \<Rightarrow> v)"

definition ObjectId :: "string \<Rightarrow> error + nat" where
  "ObjectId s =
     (if length s = 24 \<and> list_all is_hex s then Inr (foldl hex_step 0 s) else Inl InvalidId)"

fun hex_of :: "nat \<Rightarrow> nat \<Rightarrow> string" where
  "hex_of 0 n = []"
| "hex_of (Suc k) n = hex_of k (n div 16) @ [''0123456789abcdef'' ! (n mod 16)]"

definition str_oid :: "nat \<Rightarrow> string" where
  "str_oid n = hex_of 24 n"

section \<open>Documents (schemas.py and the dictionaries main.py writes)\<close>

record user =
  u_email :: string
  u_first_name :: "string option"
  u_last_name :: "string option"
  u_is_active :: bool
  u_is_banned :: bool
  u_residence_id :: "string option"
  u_allow_all_residences :: bool

record photo =
  ph_url :: string
  ph_order :: nat

text \<open>
  A profile document holds what \<open>create_or_update_profile\<close> writes. The store has no
  schema, and \<open>discover\<close> queries the profile collection on a field \<open>residence_id\<close>;
  \<open>p_residence_id\<close> is that field, \<open>None\<close> when the document has no such field or holds
  null there (the store's equality query treats the two alike).
\<close>

record profile =
  p_user_id :: string
  p_bio :: "string option"
  p_age :: "int option"
  p_pronouns :: "string option"
  p_year :: "string option"
  p_program :: "string option"
  p_interests :: "string list"
  p_photos :: "photo list"
  p_updated_at :: int
  p_residence_id :: "string option"

record verification =
  v_email :: string
  v_token :: string
  v_purpose :: string
  v_used :: bool
  v_expires_at :: int

record swipe_doc =
  s_swiper_id :: string
  s_target_id :: string
  s_direction :: string

record match_doc =
  user_a :: string
  user_b :: string

record message_doc =
  m_match_id :: string
  m_sender_id :: string
  m_text :: string

record report_doc =
  r_reporter_id :: string
  r_target_user_id :: "string option"
  r_target_message_id :: "string option"
  r_reason :: string
  r_details :: "string option"

section \<open>The document store\<close>

text \<open>
  Modelled from the spec: the persistence gateway (\<open>database.py\<close>: \<open>db\<close>,
  \<open>create_document\<close>, \<open>get_documents\<close>) is not among the sources. The spec describes it
  as generic create/read/update operations on named collections with no logic of its own,
  results in insertion order. Each collection is the list of its documents in insertion
  order; \<open>create_document\<close> appends and returns the new document's id as a string;
  \<open>get_documents\<close> and \<open>find\<close> filter, \<open>find_one\<close> takes the first hit, \<open>update_one\<close>
  rewrites the document with the given \<open>_id\<close>.
\<close>

record store =
  users :: "user list"
  profiles :: "profile list"
  verifications :: "verification list"
  swipes :: "swipe_doc list"
  matches :: "match_doc list"
  messages :: "message_doc list"
  reports :: "report_doc list"

definition get_documents :: "('a \<Rightarrow> bool) \<Rightarrow> 'a list \<Rightarrow> (nat \<times> 'a) list" where
  "get_documents q coll = filter (\<lambda>d. q (snd d)) (enumerate 0 coll)"

definition find_one :: "('a \<Rightarrow> bool) \<Rightarrow> 'a list \<Rightarrow> (nat \<times> 'a) option" where
  "find_one q coll = (case get_documents q coll of [] \<Rightarrow> None | d # ds \<Rightarrow> Some d)"

definition find_by_id :: "nat \<Rightarrow> 'a list \<Rightarrow> 'a option" where
  "find_by_id i coll = (if i < length coll then Some (coll ! i) else None)"

definition create_document :: "'a list \<Rightarrow> 'a \<Rightarrow> string \<times> 'a list" where
  "create_document coll d = (str_oid (length coll), coll @ [d])"

definition update_one :: "nat \<Rightarrow> ('a \<Rightarrow> 'a) \<Rightarrow> 'a list \<Rightarrow> 'a list" where
  "update_one i f coll = (if i < length coll then coll[i := f (coll ! i)] else coll)"

section \<open>Request bodies and responses\<close>

record SendMagicLinkRequest =
  sm_email :: string
  sm_purpose :: string

record VerifyMagicLinkRequest =
  vm_email :: string
  vm_token :: string

record CreateProfileRequest =
  first_name :: string
  last_name :: "string option"
  residence_id :: "string option"
  allow_all_residences :: bool
  bio :: "string option"
  age :: "int option"
  pronouns :: "string option"
  year :: "string option"
  program :: "string option"
  interests :: "string list"
  photos :: "string list"

record SwipeRequest =
  target_id :: string
  direction :: string

record MessageRequest =
  match_id :: string
  msg_text :: string

record card =
  c_user_id :: string
  c_first_name :: "string option"
  c_age :: "int option"
  c_bio :: "string option"
  c_residence_id :: "string option"
  c_photos :: "photo list"

record match_summary =
  ms_match_id :: string
  ms_user_id :: string
  ms_first_name :: "string option"
  ms_photos :: "photo list"

section \<open>Authentication (main.py, lines 30 to 120)\<close>

text \<open>
  \<open>validate_email\<close> belongs to an external library. The model keeps what
  \<open>is_valid_domain\<close> needs of it: an address with exactly one \<open>@\<close>, a non-empty local part
  and a non-empty domain is accepted and its domain returned; any other raises
  \<open>EmailNotValidError\<close> (\<open>None\<close>).
\<close>

definition validate_email :: "string \<Rightarrow> string option" where
  "validate_email e =
     (case dropWhile (\<lambda>c. c \<noteq> CHR ''@'') e of
        [] \<Rightarrow> None
      | at # domain \<Rightarrow>
          (if takeWhile (\<lambda>c. c \<noteq> CHR ''@'') e = [] \<or> domain = [] \<or> CHR ''@'' \<in> set domain
           then None else Some domain))"

definition is_valid_domain :: "string \<Rightarrow> bool" where
  "is_valid_domain email =
     (case validate_email email of
        None \<Rightarrow> False
      | Some d \<Rightarrow>
          (let domain = lower d
           in list_ex (\<lambda>d. domain = d \<or> endswith domain (''@'' @ d)) ALLOWED_DOMAINS
              \<or> domain \<in> set ALLOWED_DOMAINS))"

text \<open>
  The constructors of the schema models that main.py calls. \<open>Verification\<close> declares
  \<open>purpose\<close> as one of two literals, so any other purpose raises \<open>ValidationError\<close>;
  \<open>used\<close> defaults to false. \<open>User(email=...)\<close> takes every other field's default.
\<close>

definition Verification :: "string \<Rightarrow> string \<Rightarrow> string \<Rightarrow> int \<Rightarrow> error + verification" where
  "Verification email token purpose expires_at =
     (if purpose = ''login'' \<or> purpose = ''signup''
      then Inr \<lparr>v_email = email, v_token = token, v_purpose = purpose, v_used = False,
                v_expires_at = expires_at\<rparr>
      else Inl ValidationError)"

definition User :: "string \<Rightarrow> user" where
  "User email =
     \<lparr>u_email = email, u_first_name = None, u_last_name = None, u_is_active = True,
      u_is_banned = False, u_residence_id = None, u_allow_all_residences = False\<rparr>"

text \<open>
  \<open>send_magic_link\<close>: the token drawn by \<open>secrets.token_urlsafe\<close> and the clock reading
  \<open>int(time.time())\<close> are inputs. The result is the token and its expiry.
\<close>

definition send_magic_link ::
  "store \<Rightarrow> SendMagicLinkRequest \<Rightarrow> string \<Rightarrow> int \<Rightarrow> (error + string \<times> int) \<times> store" where
  "send_magic_link s payload token now =
     (let email = lower (sm_email payload)
      in if \<not> is_valid_domain email
         then (Inl (HTTPException 400
                 ''Email domain not allowed. Use your student email (polito/unito).''), s)
         else
           (let expires_at = now + MAGIC_TOKEN_TTL
            in case Verification email token (sm_purpose payload) expires_at of
                 Inl e \<Rightarrow> (Inl e, s)
               | Inr verification \<Rightarrow>
                   (Inr (token, expires_at),
                    s\<lparr>verifications := snd (create_document (verifications s) verification)\<rparr>)))"

text \<open>\<open>verify_magic_link\<close>: the result is the \<open>user_id\<close>.\<close>

definition verify_magic_link ::
  "store \<Rightarrow> VerifyMagicLinkRequest \<Rightarrow> int \<Rightarrow> (error + string) \<times> store" where
  "verify_magic_link s payload now =
     (let email = lower (vm_email payload)
      in if \<not> is_valid_domain email
         then (Inl (HTTPException 400 ''Invalid email''), s)
         else
           (let recs = get_documents
                         (\<lambda>v. v_email v = email \<and> v_token v = vm_token payload \<and> v_used v = False)
                         (verifications s)
            in if recs = []
               then (Inl (HTTPException 400 ''Invalid or used token''), s)
               else
                 (let rec = last recs
                  in if v_expires_at (snd rec) < now
                     then (Inl (HTTPException 400 ''Token expired''), s)
                     else
                       (let (user_id, s1) =
                              (case find_one (\<lambda>u. u_email u = email) (users s) of
                                 Some existing \<Rightarrow> (str_oid (fst existing), s)
                               | None \<Rightarrow>
                                   (let (new_id, us) = create_document (users s) (User email)
                                    in (new_id, s\<lparr>users := us\<rparr>)));
                            s2 = s1\<lparr>verifications :=
                                      update_one (fst rec) (\<lambda>v. v\<lparr>v_used := True\<rparr>)
                                        (verifications s1)\<rparr>
                        in (Inr user_id, s2)))))"

section \<open>Profiles (main.py, lines 123 to 174)\<close>

text \<open>
  \<open>create_or_update_profile\<close>: every raise comes before the first write. The request
  model types \<open>photos\<close> as a list, so the handler's test for \<open>None\<close> never fires. An update
  (\<open>$set\<close>) replaces the fields of \<open>profile_doc\<close> and leaves any other field of the stored
  document as it was; an insert stores \<open>profile_doc\<close> alone.
\<close>

definition set_profile_doc :: "string \<Rightarrow> CreateProfileRequest \<Rightarrow> photo list \<Rightarrow> int \<Rightarrow> profile \<Rightarrow> profile" where
  "set_profile_doc user_id payload photos_docs now p =
     p\<lparr>p_user_id := user_id, p_bio := bio payload, p_age := age payload,
       p_pronouns := pronouns payload, p_year := year payload, p_program := program payload,
       p_interests := interests payload, p_photos := photos_docs, p_updated_at := now\<rparr>"

definition create_or_update_profile ::
  "store \<Rightarrow> string \<Rightarrow> CreateProfileRequest \<Rightarrow> int \<Rightarrow> (error + string) \<times> store" where
  "create_or_update_profile s user_id payload now =
     (if (case bio payload of
            None \<Rightarrow> False
          | Some b \<Rightarrow> b \<noteq> [] \<and> list_ex (\<lambda>w. contains (lower b) w) BANNED_WORDS)
      then (Inl (HTTPException 400 ''Bio contains prohibited content''), s)
      else if length (photos payload) < MIN_PHOTOS \<or> length (photos payload) > MAX_PHOTOS
      then (Inl (HTTPException 400 ''Profiles require between 3 and 8 photos''), s)
      else
        (case ObjectId user_id of
           Inl e \<Rightarrow> (Inl e, s)
         | Inr obj_id \<Rightarrow>
             (case find_by_id obj_id (users s) of
                None \<Rightarrow> (Inl (HTTPException 404 ''User not found''), s)
              | Some user \<Rightarrow>
                  (let s1 = s\<lparr>users :=
                               update_one obj_id
                                 (\<lambda>u. u\<lparr>u_first_name := Some (first_name payload),
                                         u_last_name := last_name payload,
                                         u_residence_id := residence_id payload,
                                         u_allow_all_residences := allow_all_residences payload\<rparr>)
                                 (users s)\<rparr>;
                       photos_docs = map (\<lambda>(idx, url). \<lparr>ph_url = url, ph_order = idx\<rparr>)
                                       (enumerate 0 (take MAX_PHOTOS (photos payload)));
                       s2 = (case find_one (\<lambda>p. p_user_id p = user_id) (profiles s1) of
                               Some existing_profile \<Rightarrow>
                                 s1\<lparr>profiles :=
                                      update_one (fst existing_profile)
                                        (set_profile_doc user_id payload photos_docs now)
                                        (profiles s1)\<rparr>
                             | None \<Rightarrow>
                                 s1\<lparr>profiles :=
                                      snd (create_document (profiles s1)
                                             \<lparr>p_user_id = user_id, p_bio = bio payload,
                                              p_age = age payload, p_pronouns = pronouns payload,
                                              p_year = year payload, p_program = program payload,
                                              p_interests = interests payload,
                                              p_photos = photos_docs, p_updated_at = now,
                                              p_residence_id = None\<rparr>)\<rparr>)
                   in (Inr ''Profile saved'', s2)))))"

section \<open>Discovery (main.py, lines 177 to 216)\<close>

text \<open>
  The loop over the page of candidates. \<open>ObjectId(prof["user_id"])\<close> raises on a malformed
  id; a candidate already swiped, without a user record or banned is skipped; the loop
  stops as soon as \<open>limit\<close> cards are collected.
\<close>

fun discover_loop :: "store \<Rightarrow> string list \<Rightarrow> nat \<Rightarrow> profile list \<Rightarrow> card list \<Rightarrow> error + card list" where
  "discover_loop s swiped_ids limit [] cards = Inr cards"
| "discover_loop s swiped_ids limit (prof # rest) cards =
     (if p_user_id prof \<in> set swiped_ids
      then discover_loop s swiped_ids limit rest cards
      else
        (case ObjectId (p_user_id prof) of
           Inl e \<Rightarrow> Inl e
         | Inr oid \<Rightarrow>
             (case find_by_id oid (users s) of
                None \<Rightarrow> discover_loop s swiped_ids limit rest cards
              | Some u \<Rightarrow>
                  (if u_is_banned u
                   then discover_loop s swiped_ids limit rest cards
                   else
                     (let cards' = cards @
                            [\<lparr>c_user_id = p_user_id prof, c_first_name = u_first_name u,
                              c_age = p_age prof, c_bio = p_bio prof,
                              c_residence_id = u_residence_id u, c_photos = p_photos prof\<rparr>]
                      in if length cards' \<ge> limit
                         then Inr cards'
                         else discover_loop s swiped_ids limit rest cards')))))"

text \<open>
  The query \<open>discover\<close> runs on the profile collection: \<open>user_id\<close> differs from the
  requester's and, unless the requester allows all residences, the profile document's
  \<open>residence_id\<close> equals the requester's.
\<close>

definition filter_query :: "user \<Rightarrow> string \<Rightarrow> profile \<Rightarrow> bool" where
  "filter_query user user_id p =
     (p_user_id p \<noteq> user_id \<and>
      (if \<not> u_allow_all_residences user then p_residence_id p = u_residence_id user else True))"

text \<open>
  \<open>discover\<close>: \<open>limit\<close> is declared \<open>Query(20, ge=1, le=50)\<close>, so the framework answers 422
  outside that range before the handler runs.
\<close>

definition discover :: "store \<Rightarrow> string \<Rightarrow> int \<Rightarrow> (error + card list) \<times> store" where
  "discover s user_id limit =
     (if limit < 1 \<or> limit > 50
      then (Inl (HTTPException 422 ''limit out of range''), s)
      else
        (case ObjectId user_id of
           Inl e \<Rightarrow> (Inl e, s)
         | Inr oid \<Rightarrow>
             (case find_by_id oid (users s) of
                None \<Rightarrow> (Inl (HTTPException 404 ''User not found''), s)
              | Some user \<Rightarrow>
                  (case find_one (\<lambda>p. p_user_id p = user_id) (profiles s) of
                     None \<Rightarrow> (Inl (HTTPException 400 ''Complete your profile first''), s)
                   | Some my_profile \<Rightarrow>
                       (let swiped_ids = map (\<lambda>d. s_target_id (snd d))
                                           (get_documents (\<lambda>w. s_swiper_id w = user_id) (swipes s));
                            candidates = take (nat limit * 2)
                                           (map snd (get_documents (filter_query user user_id)
                                                       (profiles s)))
                        in (discover_loop s swiped_ids (nat limit) candidates [], s))))))"

section \<open>Swipes and matches (main.py, lines 219 to 261)\<close>

text \<open>\<open>swipe\<close>: the result is the \<open>match\<close> flag of the response.\<close>

definition swipe :: "store \<Rightarrow> string \<Rightarrow> SwipeRequest \<Rightarrow> (error + bool) \<times> store" where
  "swipe s user_id payload =
     (if \<not> (direction payload = ''left'' \<or> direction payload = ''right'')
      then (Inl (HTTPException 400 ''Invalid direction''), s)
      else
        (let s1 = s\<lparr>swipes :=
                     snd (create_document (swipes s)
                            \<lparr>s_swiper_id = user_id, s_target_id = target_id payload,
                             s_direction = direction payload\<rparr>)\<rparr>
         in if direction payload = ''right''
            then
              (case find_one (\<lambda>w. s_swiper_id w = target_id payload \<and> s_target_id w = user_id
                                   \<and> s_direction w = ''right'') (swipes s1) of
                 None \<Rightarrow> (Inr False, s1)
               | Some reciprocal \<Rightarrow>
                   (case find_one (\<lambda>m. (user_a m = user_id \<and> user_b m = target_id payload)
                                        \<or> (user_a m = target_id payload \<and> user_b m = user_id))
                           (matches s1) of
                      None \<Rightarrow>
                        (Inr True,
                         s1\<lparr>matches :=
                              snd (create_document (matches s1)
                                     \<lparr>user_a = user_id, user_b = target_id payload\<rparr>)\<rparr>)
                    | Some existing \<Rightarrow> (Inr True, s1)))
            else (Inr False, s1)))"

text \<open>
  The loop of \<open>list_matches\<close>: \<open>ObjectId(other_id)\<close> raises \<open>InvalidId\<close> on a malformed
  id, and \<open>u.get\<close> raises \<open>AttributeError\<close> when no user record was found; a missing
  profile only empties the photo list.
\<close>

fun list_matches_loop ::
  "store \<Rightarrow> string \<Rightarrow> (nat \<times> match_doc) list \<Rightarrow> match_summary list \<Rightarrow> error + match_summary list" where
  "list_matches_loop s user_id [] cleaned = Inr cleaned"
| "list_matches_loop s user_id (m # ms) cleaned =
     (let other_id = (if user_a (snd m) = user_id then user_b (snd m) else user_a (snd m));
          prof = find_one (\<lambda>p. p_user_id p = other_id) (profiles s)
      in case ObjectId other_id of
           Inl e \<Rightarrow> Inl e
         | Inr oid \<Rightarrow>
             (case find_by_id oid (users s) of
                None \<Rightarrow> Inl AttributeError
              | Some u \<Rightarrow>
                  list_matches_loop s user_id ms
                    (cleaned @
                       [\<lparr>ms_match_id = str_oid (fst m), ms_user_id = other_id,
                         ms_first_name = u_first_name u,
                         ms_photos = (case prof of None \<Rightarrow> [] | Some p \<Rightarrow> p_photos (snd p))\<rparr>])))"

definition list_matches :: "store \<Rightarrow> string \<Rightarrow> (error + match_summary list) \<times> store" where
  "list_matches s user_id =
     (let ms = get_documents (\<lambda>m. user_a m = user_id \<or> user_b m = user_id) (matches s)
      in (list_matches_loop s user_id ms [], s))"

section \<open>Messages and reports (main.py, lines 264 to 297)\<close>

definition list_messages ::
  "store \<Rightarrow> string \<Rightarrow> string \<Rightarrow> (error + (string \<times> message_doc) list) \<times> store" where
  "list_messages s user_id mid =
     (case ObjectId mid of
        Inl e \<Rightarrow> (Inl e, s)
      | Inr oid \<Rightarrow>
          (case find_by_id oid (matches s) of
             None \<Rightarrow> (Inl (HTTPException 404 ''Match not found''), s)
           | Some m \<Rightarrow>
               (if user_id \<notin> set [user_a m, user_b m]
                then (Inl (HTTPException 404 ''Match not found''), s)
                else (Inr (map (\<lambda>d. (str_oid (fst d), snd d))
                             (get_documents (\<lambda>d. m_match_id d = mid) (messages s))), s))))"

definition send_message :: "store \<Rightarrow> string \<Rightarrow> MessageRequest \<Rightarrow> (error + string) \<times> store" where
  "send_message s user_id payload =
     (case ObjectId (match_id payload) of
        Inl e \<Rightarrow> (Inl e, s)
      | Inr oid \<Rightarrow>
          (case find_by_id oid (matches s) of
             None \<Rightarrow> (Inl (HTTPException 404 ''Match not found''), s)
           | Some m \<Rightarrow>
               (if user_id \<notin> set [user_a m, user_b m]
                then (Inl (HTTPException 404 ''Match not found''), s)
                else (Inr ''sent'',
                      s\<lparr>messages :=
                           snd (create_document (messages s)
                                  \<lparr>m_match_id = match_id payload, m_sender_id = user_id,
                                   m_text = msg_text payload\<rparr>)\<rparr>))))"

definition report ::
  "store \<Rightarrow> string \<Rightarrow> string option \<Rightarrow> string option \<Rightarrow> string \<Rightarrow> string option
     \<Rightarrow> (error + string) \<times> store" where
  "report s user_id target_user_id target_message_id reason details =
     (if reason = []
      then (Inl (HTTPException 400 ''Reason is required''), s)
      else (Inr ''reported'',
            s\<lparr>reports :=
                 snd (create_document (reports s)
                        \<lparr>r_reporter_id = user_id, r_target_user_id = target_user_id,
                         r_target_message_id = target_message_id, r_reason = reason,
                         r_details = details\<rparr>)\<rparr>))"

section \<open>Sequences of calls\<close>

text \<open>
  The server runs the handlers one after another on the shared store. A \<open>call\<close> names a
  handler with its arguments (for \<open>send_magic_link\<close> also the token drawn, and the clock
  reading where the handler takes one); \<open>step\<close> is the store a call leaves behind, whether
  it succeeds or raises, and \<open>run\<close> performs a list of calls in order.
\<close>

datatype call =
    Send_magic_link SendMagicLinkRequest string int
  | Verify_magic_link VerifyMagicLinkRequest int
  | Create_or_update_profile string CreateProfileRequest int
  | Discover string int
  | Swipe string SwipeRequest
  | List_matches string
  | List_messages string string
  | Send_message string MessageRequest
  | Report string "string option" "string option" string "string option"

fun step :: "store \<Rightarrow> call \<Rightarrow> store" where
  "step s (Send_magic_link payload token now) = snd (send_magic_link s payload token now)"
| "step s (Verify_magic_link payload now) = snd (verify_magic_link s payload now)"
| "step s (Create_or_update_profile user_id payload now) =
     snd (create_or_update_profile s user_id payload now)"
| "step s (Discover user_id limit) = snd (discover s user_id limit)"
| "step s (Swipe user_id payload) = snd (swipe s user_id payload)"
| "step s (List_matches user_id) = snd (list_matches s user_id)"
| "step s (List_messages user_id mid) = snd (list_messages s user_id mid)"
| "step s (Send_message user_id payload) = snd (send_message s user_id payload)"
| "step s (Report user_id target_user_id target_message_id reason details) =
     snd (report s user_id target_user_id target_message_id reason details)"

definition run :: "store \<Rightarrow> call list \<Rightarrow> store" where
  "run s calls = foldl step s calls"

section \<open>Predicates used in the statements\<close>

text \<open>
  The other participant of a match as \<open>list_matches\<close> picks it, and the condition that
  this id is a well-formed object id with a user record behind it.
\<close>

definition counterpart :: "string \<Rightarrow> match_doc \<Rightarrow> string" where
  "counterpart user_id m = (if user_a m = user_id then user_b m else user_a m)"

definition user_exists :: "store \<Rightarrow> string \<Rightarrow> bool" where
  "user_exists s uid = (case ObjectId uid of Inl e \<Rightarrow> False | Inr oid \<Rightarrow> oid < length (users s))"

definition matches_of :: "store \<Rightarrow> string \<Rightarrow> match_doc list" where
  "matches_of s user_id = filter (\<lambda>m. user_a m = user_id \<or> user_b m = user_id) (matches s)"

definition counterparts_ok :: "store \<Rightarrow> string \<Rightarrow> bool" where
  "counterparts_ok s user_id =
     list_all (\<lambda>m. user_exists s (counterpart user_id m)) (matches_of s user_id)"

text \<open>The banned-word test that \<open>create_or_update_profile\<close> applies to the bio.\<close>

definition bio_prohibited :: "string option \<Rightarrow> bool" where
  "bio_prohibited b =
     (case b of None \<Rightarrow> False
      | Some t \<Rightarrow> t \<noteq> [] \<and> list_ex (\<lambda>w. contains (lower t) w) BANNED_WORDS)"

text \<open>The photo documents built from the submitted urls.\<close>

definition photos_docs_of :: "string list \<Rightarrow> photo list" where
  "photos_docs_of urls =
     map (\<lambda>(idx, url). \<lparr>ph_url = url, ph_order = idx\<rparr>) (enumerate 0 (take MAX_PHOTOS urls))"

text \<open>
  What \<open>discover\<close> reads before its loop: the targets of the requester's swipes, and the
  profiles that answer its query (the pool), in storage order.
\<close>

definition swiped_ids_of :: "store \<Rightarrow> string \<Rightarrow> string list" where
  "swiped_ids_of s user_id =
     map s_target_id (filter (\<lambda>w. s_swiper_id w = user_id) (swipes s))"

definition pool :: "store \<Rightarrow> user \<Rightarrow> string \<Rightarrow> profile list" where
  "pool s user user_id = filter (filter_query user user_id) (profiles s)"

text \<open>
  The owner of a profile (the user record its \<open>user_id\<close> points to), and the card of a
  valid candidate: a profile the requester has not swiped on whose owner exists and is
  not banned.
\<close>

definition owner :: "store \<Rightarrow> profile \<Rightarrow> user option" where
  "owner s prof =
     (case ObjectId (p_user_id prof) of Inl e \<Rightarrow> None | Inr oid \<Rightarrow> find_by_id oid (users s))"

definition candidate_card :: "store \<Rightarrow> string list \<Rightarrow> profile \<Rightarrow> card option" where
  "candidate_card s swiped_ids prof =
     (if p_user_id prof \<in> set swiped_ids then None
      else case owner s prof of
             None \<Rightarrow> None
           | Some u \<Rightarrow>
               (if u_is_banned u then None
                else Some \<lparr>c_user_id = p_user_id prof, c_first_name = u_first_name u,
                           c_age = p_age prof, c_bio = p_bio prof,
                           c_residence_id = u_residence_id u, c_photos = p_photos prof\<rparr>))"

definition valid_cards :: "store \<Rightarrow> string list \<Rightarrow> profile list \<Rightarrow> card list" where
  "valid_cards s swiped_ids page = List.map_filter (candidate_card s swiped_ids) page"

definition well_formed_id :: "string \<Rightarrow> bool" where
  "well_formed_id uid = (case ObjectId uid of Inl e \<Rightarrow> False | Inr oid \<Rightarrow> True)"



section \<open>Example stores\<close>

text \<open>The empty store and three well-formed ids, for the examples below.\<close>

definition store0 :: store where
  "store0 = \<lparr>users = [], profiles = [], verifications = [], swipes = [], matches = [],
             messages = [], reports = []\<rparr>"

definition oid0 :: string where
  "oid0 = ''000000000000000000000000''"

definition oid1 :: string where
  "oid1 = ''000000000000000000000001''"

definition oid2 :: string where
  "oid2 = ''000000000000000000000002''"

text \<open>
  One verified user (id \<open>oid0\<close>) holding a match with \<open>oid1\<close>, an id that no user
  record has.
\<close>

definition store_dangling :: store where
  "store_dangling =
     store0\<lparr>users := [User ''anna@polito.it''],
            matches := [\<lparr>user_a = oid0, user_b = oid1\<rparr>]\<rparr>"

text \<open>A store with one verified user (id \<open>oid0\<close>), and profile requests with 2, 3, 8 and 9 photos.\<close>

definition store_anna :: store where
  "store_anna = store0\<lparr>users := [User ''anna@polito.it'']\<rparr>"

definition request_photos :: "nat \<Rightarrow> CreateProfileRequest" where
  "request_photos n =
     \<lparr>first_name = ''Anna'', last_name = None, residence_id = Some ''R1'',
      allow_all_residences = False, bio = Some ''hello'', age = Some 21, pronouns = None,
      year = None, program = None, interests = [],
      photos = replicate n ''http://img''\<rparr>"

text \<open>Two verified users, \<open>oid0\<close> and \<open>oid1\<close>, and their match (id \<open>oid0\<close>).\<close>

definition store_matched :: store where
  "store_matched =
     store0\<lparr>users := [User ''anna@polito.it'', User ''bob@unito.it''],
            matches := [\<lparr>user_a = oid0, user_b = oid1\<rparr>]\<rparr>"

text \<open>
  Stores built by the handlers alone. \<open>register\<close> sends a magic link and verifies it;
  \<open>request_for\<close> is a profile request with three photos; \<open>campus ra aa rb\<close> is the store
  after Anna (residence \<open>ra\<close>, allow-all flag \<open>aa\<close>) and Bob (residence \<open>rb\<close>) have
  registered and saved their profiles: Anna's id is \<open>oid0\<close>, Bob's \<open>oid1\<close>.
\<close>

definition register :: "store \<Rightarrow> string \<Rightarrow> string \<Rightarrow> int \<Rightarrow> store" where
  "register s email token now =
     snd (verify_magic_link
            (snd (send_magic_link s \<lparr>sm_email = email, sm_purpose = ''login''\<rparr> token now))
            \<lparr>vm_email = email, vm_token = token\<rparr> (now + 60))"

definition request_for :: "string \<Rightarrow> string option \<Rightarrow> bool \<Rightarrow> CreateProfileRequest" where
  "request_for name res allow_all =
     \<lparr>first_name = name, last_name = None, residence_id = res,
      allow_all_residences = allow_all, bio = Some ''hello'', age = Some 21, pronouns = None,
      year = None, program = None, interests = [],
      photos = [''http://img/1'', ''http://img/2'', ''http://img/3'']\<rparr>"

definition campus :: "string option \<Rightarrow> bool \<Rightarrow> string option \<Rightarrow> store" where
  "campus ra aa rb =
     (let s1 = register store0 ''anna@polito.it'' ''token-a'' 1700000000;
          s2 = register s1 ''bob@unito.it'' ''token-b'' 1700000100;
          s3 = snd (create_or_update_profile s2 oid0 (request_for ''Anna'' ra aa) 1700000200)
      in snd (create_or_update_profile s3 oid1 (request_for ''Bob'' rb False) 1700000300))"

text \<open>
  \<open>campus_swiped\<close>: Anna allows all residences; Carl (\<open>oid2\<close>) and Dora (\<open>oid3\<close>) have
  joined as well, and Anna has swiped left on Bob and on Carl.
\<close>

definition oid3 :: string where
  "oid3 = ''000000000000000000000003''"

definition campus_swiped :: store where
  "campus_swiped =
     (let s1 = campus None True None;
          s2 = register s1 ''carl@polito.it'' ''token-c'' 1700000400;
          s3 = register s2 ''dora@unito.it'' ''token-d'' 1700000500;
          s4 = snd (create_or_update_profile s3 oid2 (request_for ''Carl'' None False) 1700000600);
          s5 = snd (create_or_update_profile s4 oid3 (request_for ''Dora'' None False) 1700000700);
          s6 = snd (swipe s5 oid0 \<lparr>target_id = oid1, direction = ''left''\<rparr>)
      in snd (swipe s6 oid0 \<lparr>target_id = oid2, direction = ''left''\<rparr>))"

definition card_dora :: card where
  "card_dora =
     \<lparr>c_user_id = oid3, c_first_name = Some ''Dora'', c_age = Some 21, c_bio = Some ''hello'',
      c_residence_id = None,
      c_photos = [\<lparr>ph_url = ''http://img/1'', ph_order = 0\<rparr>,
                  \<lparr>ph_url = ''http://img/2'', ph_order = 1\<rparr>,
                  \<lparr>ph_url = ''http://img/3'', ph_order = 2\<rparr>]\<rparr>"

definition card_bob :: "string option \<Rightarrow> card" where
  "card_bob res =
     \<lparr>c_user_id = oid1, c_first_name = Some ''Bob'', c_age = Some 21, c_bio = Some ''hello'',
      c_residence_id = res,
      c_photos = [\<lparr>ph_url = ''http://img/1'', ph_order = 0\<rparr>,
                  \<lparr>ph_url = ''http://img/2'', ph_order = 1\<rparr>,
                  \<lparr>ph_url = ''http://img/3'', ph_order = 2\<rparr>]\<rparr>"

text \<open>
  A magic link sent to Anna on the empty store, and the store after she has verified it
  at the last second of its life.
\<close>

definition sent_anna :: store where
  "sent_anna =
     snd (send_magic_link store0 \<lparr>sm_email = ''Anna@Polito.IT'', sm_purpose = ''login''\<rparr>
            ''token-a'' 1700000000)"

definition verified_anna :: store where
  "verified_anna =
     snd (verify_magic_link sent_anna \<lparr>vm_email = ''Anna@Polito.IT'', vm_token = ''token-a''\<rparr>
            1700000900)"



text \<open>
  The calls that build \<open>campus None True None\<close>, and the same followed by two swipes:
  somebody swipes right on Anna under the id \<open>ghost\<close>, which is no object id, and Anna
  swipes right on \<open>ghost\<close>. In the store they leave, Anna then swipes right on Bob and
  Bob on Anna.
\<close>

definition register_calls :: "string \<Rightarrow> string \<Rightarrow> int \<Rightarrow> call list" where
  "register_calls email token now =
     [Send_magic_link \<lparr>sm_email = email, sm_purpose = ''login''\<rparr> token now,
      Verify_magic_link \<lparr>vm_email = email, vm_token = token\<rparr> (now + 60)]"






text \<open>
  Eleven registered users, so that the last one has an id with a letter in it: \<open>ida\<close>,
  which \<open>ObjectId\<close> reads the same as \<open>idA\<close>. The first user (Zoe, \<open>oid0\<close>) saves a
  profile; the last one (Ada) saves hers once as \<open>ida\<close> and once as \<open>idA\<close>, and then
  swipes left on Zoe as \<open>ida\<close>.
\<close>

definition ida :: string where
  "ida = ''00000000000000000000000a''"

definition idA :: string where
  "idA = ''00000000000000000000000A''"

definition spelling_calls :: "call list" where
  "spelling_calls =
     concat (map (\<lambda>n. register_calls (n @ ''@polito.it'') (''token-'' @ n) 1700000000)
               [''u0'', ''u1'', ''u2'', ''u3'', ''u4'', ''u5'', ''u6'', ''u7'', ''u8'', ''u9'',
                ''ua''])
     @ [Create_or_update_profile oid0 (request_for ''Zoe'' None False) 1700000200,
        Create_or_update_profile ida (request_for ''Ada'' None True) 1700000300,
        Create_or_update_profile idA (request_for ''Ada'' None True) 1700000400,
        Swipe ida \<lparr>target_id = oid0, direction = ''left''\<rparr>]"

definition spelling_store :: store where
  "spelling_store = run store0 spelling_calls"

definition card_zoe :: card where
  "card_zoe =
     \<lparr>c_user_id = oid0, c_first_name = Some ''Zoe'', c_age = Some 21, c_bio = Some ''hello'',
      c_residence_id = None,
      c_photos = [\<lparr>ph_url = ''http://img/1'', ph_order = 0\<rparr>,
                  \<lparr>ph_url = ''http://img/2'', ph_order = 1\<rparr>,
                  \<lparr>ph_url = ''http://img/3'', ph_order = 2\<rparr>]\<rparr>"

definition card_ada :: card where
  "card_ada =
     \<lparr>c_user_id = ida, c_first_name = Some ''Ada'', c_age = Some 21, c_bio = Some ''hello'',
      c_residence_id = None,
      c_photos = [\<lparr>ph_url = ''http://img/1'', ph_order = 0\<rparr>,
                  \<lparr>ph_url = ''http://img/2'', ph_order = 1\<rparr>,
                  \<lparr>ph_url = ''http://img/3'', ph_order = 2\<rparr>]\<rparr>"

section \<open>Facts about the store operations\<close>

lemma get_documents_append:
  "get_documents q (xs @ [x]) = get_documents q xs @ (if q x then [(length xs, x)] else [])"
  by (simp add: get_documents_def enumerate_append_eq)

lemma get_documents_set:
  "set (get_documents q xs) = {(i, x). i < length xs \<and> xs ! i = x \<and> q x}"
  by (auto simp: get_documents_def in_set_enumerate_eq)

lemma find_one_None: "find_one q xs = None \<longleftrightarrow> \<not> list_ex q xs"
proof -
  have "find_one q xs = None \<longleftrightarrow> set (get_documents q xs) = {}"
    by (simp add: find_one_def split: list.splits)
  also have "\<dots> \<longleftrightarrow> \<not> list_ex q xs"
    unfolding get_documents_set list_ex_iff by (auto simp: in_set_conv_nth dest: nth_mem)
  finally show ?thesis .
qed

lemma find_one_Some:
  assumes "find_one q xs = Some d"
  shows "fst d < length xs \<and> xs ! fst d = snd d \<and> q (snd d)"
proof -
  from assms have "d \<in> set (get_documents q xs)"
    by (auto simp: find_one_def split: list.splits)
  then show ?thesis by (auto simp: get_documents_set)
qed

lemma find_one_append:
  "find_one q (xs @ [x]) =
     (case find_one q xs of Some d \<Rightarrow> Some d | None \<Rightarrow> if q x then Some (length xs, x) else None)"
  by (simp add: find_one_def get_documents_append split: list.splits)

lemma map_snd_get_documents: "map snd (get_documents q xs) = filter q xs"
proof -
  have "map snd (filter (\<lambda>d. q (snd d)) ys) = filter q (map snd ys)" for ys :: "(nat \<times> 'a) list"
    by (induction ys) auto
  then show ?thesis by (simp add: get_documents_def)
qed

text \<open>Printing an object id and parsing it again gives the id back.\<close>

lemma hex_value_digit:
  "d < 16 \<Longrightarrow> hex_value (''0123456789abcdef'' ! d) = Some d"
  by (auto simp: less_Suc_eq eval_nat_numeral hex_value_def)

lemma length_hex_of: "length (hex_of k n) = k"
  by (induction k arbitrary: n) simp_all

lemma is_hex_hex_of: "list_all is_hex (hex_of k n)"
  by (induction k arbitrary: n) (simp_all add: is_hex_def hex_value_digit)

lemma foldl_hex_of: "foldl hex_step 0 (hex_of k n) = n mod 16 ^ k"
proof (induction k arbitrary: n)
  case 0
  then show ?case by simp
next
  case (Suc k)
  have "foldl hex_step 0 (hex_of (Suc k) n) = 16 * ((n div 16) mod 16 ^ k) + n mod 16"
    by (simp add: Suc.IH hex_step_def hex_value_digit)
  also have "\<dots> = n mod 16 ^ Suc k"
    by (simp add: mod_mult2_eq)
  finally show ?case .
qed

lemma ObjectId_str_oid: "n < 16 ^ 24 \<Longrightarrow> ObjectId (str_oid n) = Inr n"
  by (simp add: ObjectId_def str_oid_def length_hex_of is_hex_hex_of foldl_hex_of)

lemma ObjectId_oid0: "ObjectId oid0 = Inr 0"
  by code_simp

lemma ObjectId_oid1: "ObjectId oid1 = Inr 1"
  by code_simp

lemma ObjectId_oid2: "ObjectId oid2 = Inr 2"
  by code_simp

section \<open>Discovery\<close>

lemma discover_loop_Cons:
  "discover_loop s swiped_ids limit (prof # rest) cards =
     (if p_user_id prof \<notin> set swiped_ids \<and> \<not> well_formed_id (p_user_id prof)
      then Inl InvalidId
      else case candidate_card s swiped_ids prof of
             None \<Rightarrow> discover_loop s swiped_ids limit rest cards
           | Some c \<Rightarrow>
               (if length (cards @ [c]) \<ge> limit then Inr (cards @ [c])
                else discover_loop s swiped_ids limit rest (cards @ [c])))"
  by (auto simp: candidate_card_def owner_def well_formed_id_def ObjectId_def Let_def
      split: sum.splits option.splits)

lemma discover_loop_sound:
  "discover_loop s swiped_ids limit page cards = Inr r \<Longrightarrow> c \<in> set r \<Longrightarrow>
   c \<in> set cards \<or> (\<exists>prof \<in> set page. candidate_card s swiped_ids prof = Some c)"
proof (induction page arbitrary: cards)
  case Nil
  then show ?case by simp
next
  case (Cons prof rest)
  show ?case
  proof (cases "candidate_card s swiped_ids prof")
    case None
    with Cons.prems have "discover_loop s swiped_ids limit rest cards = Inr r"
      by (simp add: discover_loop_Cons del: discover_loop.simps split: if_splits)
    from Cons.IH [OF this Cons.prems(2)] show ?thesis
      by auto
  next
    case (Some d)
    show ?thesis
    proof (cases "length (cards @ [d]) \<ge> limit")
      case True
      with Some Cons.prems have "r = cards @ [d]"
        by (simp add: discover_loop_Cons del: discover_loop.simps split: if_splits)
      with Cons.prems(2) Some show ?thesis
        by auto
    next
      case False
      with Some Cons.prems have "discover_loop s swiped_ids limit rest (cards @ [d]) = Inr r"
        by (simp add: discover_loop_Cons del: discover_loop.simps split: if_splits)
      from Cons.IH [OF this Cons.prems(2)] Some show ?thesis
        by auto
    qed
  qed
qed

lemma discover_unfold:
  assumes "1 \<le> limit" "limit \<le> 50"
    and "ObjectId user_id = Inr oid" "oid < length (users s)"
    and "list_ex (\<lambda>p. p_user_id p = user_id) (profiles s)"
  shows "discover s user_id limit
       = (discover_loop s (swiped_ids_of s user_id) (nat limit)
            (take (nat limit * 2) (pool s (users s ! oid) user_id)) [], s)"
proof -
  from assms(5) obtain d where "find_one (\<lambda>p. p_user_id p = user_id) (profiles s) = Some d"
    using find_one_None [of "\<lambda>p. p_user_id p = user_id" "profiles s"] by auto
  moreover have "map (\<lambda>d. s_target_id (snd d)) (get_documents (\<lambda>w. s_swiper_id w = user_id) (swipes s))
      = swiped_ids_of s user_id"
    unfolding swiped_ids_of_def map_snd_get_documents [symmetric] by simp
  ultimately show ?thesis
    using assms(1-4)
    by (simp add: discover_def find_by_id_def pool_def map_snd_get_documents)
qed

lemma discover_Inr_cases:
  assumes "fst (discover s user_id limit) = Inr r"
  obtains oid where "1 \<le> limit" "limit \<le> 50" "ObjectId user_id = Inr oid"
    "oid < length (users s)" "list_ex (\<lambda>p. p_user_id p = user_id) (profiles s)"
proof -
  from assms have a: "1 \<le> limit" "limit \<le> 50"
    by (auto simp: discover_def split: if_splits)
  from assms a obtain oid where b: "ObjectId user_id = Inr oid"
    by (auto simp: discover_def split: if_splits sum.splits)
  from assms a b have c: "oid < length (users s)"
    by (auto simp: discover_def find_by_id_def split: if_splits)
  from assms a b c have "find_one (\<lambda>p. p_user_id p = user_id) (profiles s) \<noteq> None"
    by (auto simp: discover_def find_by_id_def split: if_splits option.splits)
  then have "list_ex (\<lambda>p. p_user_id p = user_id) (profiles s)"
    by (simp add: find_one_None)
  with a b c that show thesis
    by blast
qed

lemma candidate_card_SomeD:
  assumes "candidate_card s swiped_ids prof = Some c"
  shows "c_user_id c = p_user_id prof \<and> p_user_id prof \<notin> set swiped_ids
       \<and> (\<exists>oid. ObjectId (p_user_id prof) = Inr oid \<and> oid < length (users s)
              \<and> \<not> u_is_banned (users s ! oid)
              \<and> c_residence_id c = u_residence_id (users s ! oid))"
  using assms
  by (auto simp: candidate_card_def owner_def find_by_id_def
      split: if_splits sum.splits option.splits)

text \<open>
  What the exclusions of \<open>discover\<close> amount to. A returned card never carries the
  \<open>user_id\<close> string the requester called with, never the target of a swipe recorded
  under that same string, and never belongs to a banned owner: the owner exists and its
  \<open>is_banned\<close> flag is false.
\<close>

lemma discover_exclusions_by_string:
  assumes "fst (discover s user_id limit) = Inr r"
    and "c \<in> set r"
  shows "c_user_id c \<noteq> user_id
       \<and> \<not> list_ex (\<lambda>w. s_swiper_id w = user_id \<and> s_target_id w = c_user_id c) (swipes s)
       \<and> (\<exists>oid. ObjectId (c_user_id c) = Inr oid \<and> oid < length (users s)
              \<and> \<not> u_is_banned (users s ! oid))"
proof -
  from assms(1) obtain oid where pre: "1 \<le> limit" "limit \<le> 50" "ObjectId user_id = Inr oid"
    "oid < length (users s)" "list_ex (\<lambda>p. p_user_id p = user_id) (profiles s)"
    by (rule discover_Inr_cases)
  let ?page = "take (nat limit * 2) (pool s (users s ! oid) user_id)"
  from assms(1) discover_unfold [OF pre]
  have "discover_loop s (swiped_ids_of s user_id) (nat limit) ?page [] = Inr r"
    by simp
  from discover_loop_sound [OF this assms(2)] obtain prof
    where prof: "prof \<in> set ?page"
      and card: "candidate_card s (swiped_ids_of s user_id) prof = Some c"
    by auto
  from prof have "prof \<in> set (pool s (users s ! oid) user_id)"
    by (rule in_set_takeD)
  then have own: "p_user_id prof \<noteq> user_id"
    by (simp add: pool_def filter_query_def)
  from candidate_card_SomeD [OF card] have id: "c_user_id c = p_user_id prof"
    and sw: "p_user_id prof \<notin> set (swiped_ids_of s user_id)"
    and ow: "\<exists>oid. ObjectId (p_user_id prof) = Inr oid \<and> oid < length (users s)
              \<and> \<not> u_is_banned (users s ! oid)"
    by auto
  from sw have "\<not> list_ex (\<lambda>w. s_swiper_id w = user_id \<and> s_target_id w = p_user_id prof) (swipes s)"
    by (force simp: swiped_ids_of_def list_ex_iff image_iff)
  with own id ow show ?thesis
    by simp
qed

text \<open>
  Claim C4 (the code departs from it). \<open>discover\<close> finds the requester and the owner of
  a profile through \<open>ObjectId\<close>, which reads \<open>ida\<close> and \<open>idA\<close> as the same id, but
  compares \<open>user_id\<close> strings when it leaves out the requester's own profile and the
  profiles already swiped. Ada, the user record 10, has saved her profile as \<open>ida\<close> and
  as \<open>idA\<close> and has swiped left on Zoe as \<open>ida\<close>: asking as \<open>idA\<close> she is shown Zoe
  again, and her own profile. No returned card belongs to a banned owner.
\<close>

theorem discover_confuses_id_spellings:
  "ObjectId ida = Inr 10 \<and> ObjectId idA = Inr 10
   \<and> swipes spelling_store
       = [\<lparr>s_swiper_id = ida, s_target_id = oid0, s_direction = ''left''\<rparr>]
   \<and> fst (discover spelling_store idA 20) = Inr [card_zoe, card_ada]"
  by code_simp

text \<open>
  Where profiles carry no \<open>residence_id\<close> field, saving a profile adds none, and a
  requester who has a residence and does not allow all residences is shown nobody.
\<close>

lemma create_or_update_profile_writes_no_residence:
  assumes "list_all (\<lambda>p. p_residence_id p = None) (profiles s)"
  shows "list_all (\<lambda>p. p_residence_id p = None)
           (profiles (snd (create_or_update_profile s user_id payload now)))"
proof -
  have upd: "list_all (\<lambda>p. p_residence_id p = None)
      (update_one i (set_profile_doc user_id payload docs now) (profiles s))" for i docs
    using assms
    by (auto simp: update_one_def set_profile_doc_def list_all_iff dest!: set_update_subset_insert [THEN subsetD])
  show ?thesis
    using assms upd
    by (auto simp: create_or_update_profile_def create_document_def Let_def
        split: sum.splits option.splits)
qed

lemma discover_shows_nobody_to_residents:
  assumes "list_all (\<lambda>p. p_residence_id p = None) (profiles s)"
    and "ObjectId user_id = Inr oid" and "oid < length (users s)"
    and "u_residence_id (users s ! oid) = Some r"
    and "\<not> u_allow_all_residences (users s ! oid)"
    and "fst (discover s user_id limit) = Inr cards"
  shows "cards = []"
proof -
  from assms(6) obtain oid' where pre: "1 \<le> limit" "limit \<le> 50" "ObjectId user_id = Inr oid'"
    "oid' < length (users s)" "list_ex (\<lambda>p. p_user_id p = user_id) (profiles s)"
    by (rule discover_Inr_cases)
  from pre(3) assms(2) have "oid' = oid"
    by simp
  have "pool s (users s ! oid) user_id = []"
    using assms(1,4,5) by (auto simp: pool_def filter_query_def list_all_iff filter_empty_conv)
  with discover_unfold [OF pre] assms(6) \<open>oid' = oid\<close> show ?thesis
    by simp
qed

text \<open>
  Claim C1 (the code departs from it). \<open>discover\<close> puts the residence condition into its
  query on the profile collection, but \<open>create_or_update_profile\<close> stores the residence
  on the user record and writes no \<open>residence_id\<close> into the profile document. Anna has
  no residence and does not allow all residences, Bob lives in R2: Bob's card, residence
  R2, is returned to Anna. When both live in R1, Anna is shown nobody.
\<close>

theorem discover_residence_filter_on_wrong_collection:
  "u_residence_id (users (campus None False (Some ''R2'')) ! 0) = None
   \<and> u_allow_all_residences (users (campus None False (Some ''R2'')) ! 0) = False
   \<and> fst (discover (campus None False (Some ''R2'')) oid0 20) = Inr [card_bob (Some ''R2'')]
   \<and> u_residence_id (users (campus (Some ''R1'') False (Some ''R1'')) ! 1) = Some ''R1''
   \<and> fst (discover (campus (Some ''R1'') False (Some ''R1'')) oid0 20) = Inr []"
  by code_simp

lemma valid_cards_Cons:
  "valid_cards s swiped_ids (prof # rest) =
     (case candidate_card s swiped_ids prof of
        None \<Rightarrow> valid_cards s swiped_ids rest
      | Some c \<Rightarrow> c # valid_cards s swiped_ids rest)"
  by (simp add: valid_cards_def map_filter_simps split: option.splits)

lemma discover_loop_take:
  "list_all (\<lambda>p. well_formed_id (p_user_id p)) page \<Longrightarrow> length cards < limit \<Longrightarrow>
   discover_loop s swiped_ids limit page cards
     = Inr (cards @ take (limit - length cards) (valid_cards s swiped_ids page))"
proof (induction page arbitrary: cards)
  case Nil
  then show ?case by (simp add: valid_cards_def map_filter_simps)
next
  case (Cons prof rest)
  from Cons.prems have wf: "well_formed_id (p_user_id prof)"
    and rest: "list_all (\<lambda>p. well_formed_id (p_user_id p)) rest"
    by simp_all
  show ?case
  proof (cases "candidate_card s swiped_ids prof")
    case None
    with wf Cons.IH [OF rest Cons.prems(2)] show ?thesis
      by (simp add: discover_loop_Cons valid_cards_Cons del: discover_loop.simps)
  next
    case (Some c)
    show ?thesis
    proof (cases "length (cards @ [c]) \<ge> limit")
      case True
      with Cons.prems(2) have "limit - length cards = Suc 0"
        by simp
      with True wf Some show ?thesis
        by (simp add: discover_loop_Cons valid_cards_Cons del: discover_loop.simps)
    next
      case False
      then have lt: "length (cards @ [c]) < limit"
        by simp
      then have "limit - length cards = Suc (limit - length (cards @ [c]))"
        by simp
      with False wf Some Cons.IH [OF rest lt] show ?thesis
        by (simp add: discover_loop_Cons valid_cards_Cons del: discover_loop.simps)
    qed
  qed
qed

text \<open>
  Claim C3 as stated fails. In \<open>campus_swiped\<close> Dora is a valid candidate for Anna, yet
  \<open>discover\<close> with limit 1 returns nothing: the page of two profiles it reads holds Bob
  and Carl, both already swiped.
\<close>

theorem discover_under_returns_counterexample:
  "valid_cards campus_swiped (swiped_ids_of campus_swiped oid0)
     (pool campus_swiped (users campus_swiped ! 0) oid0) = [card_dora]
   \<and> fst (discover campus_swiped oid0 1) = Inr []"
  by code_simp

text \<open>
  Claim C3, as amended. \<open>discover\<close> reads only the first \<open>2 * limit\<close> profiles that answer
  its query and returns the first \<open>limit\<close> valid candidates among them. For a valid
  requester with a profile, a limit from 1 to 50 and a store whose profiles carry
  well-formed user ids: if at least \<open>limit\<close> valid candidates are among those first
  \<open>2 * limit\<close> profiles, exactly \<open>limit\<close> cards are returned; if fewer are, all of them
  are returned. Valid candidates stored beyond that page are not returned.
\<close>

theorem discover_returns_from_first_page:
  assumes "1 \<le> limit" "limit \<le> 50"
    and "ObjectId user_id = Inr oid" "oid < length (users s)"
    and "list_ex (\<lambda>p. p_user_id p = user_id) (profiles s)"
    and "list_all (\<lambda>p. well_formed_id (p_user_id p)) (profiles s)"
    and "page = take (nat limit * 2) (pool s (users s ! oid) user_id)"
    and "valid = valid_cards s (swiped_ids_of s user_id) page"
  shows "fst (discover s user_id limit) = Inr (take (nat limit) valid)
       \<and> (nat limit \<le> length valid \<longrightarrow> length (take (nat limit) valid) = nat limit)
       \<and> (length valid < nat limit \<longrightarrow> take (nat limit) valid = valid)"
proof -
  have "set page \<subseteq> set (profiles s)"
    unfolding assms(7) pool_def by (auto dest: in_set_takeD)
  with assms(6) have wf: "list_all (\<lambda>p. well_formed_id (p_user_id p)) page"
    by (auto simp: list_all_iff)
  from assms(1) have "length ([] :: card list) < nat limit"
    by simp
  from discover_loop_take [OF wf this, of s "swiped_ids_of s user_id"]
    discover_unfold [OF assms(1-5)] assms(7,8)
  show ?thesis
    by simp
qed

lemma campus_swiped_pre:
  "ObjectId oid0 = Inr 0 \<and> 0 < length (users campus_swiped)
   \<and> list_ex (\<lambda>p. p_user_id p = oid0) (profiles campus_swiped)
   \<and> list_all (\<lambda>p. well_formed_id (p_user_id p)) (profiles campus_swiped)"
  by code_simp

lemma campus_swiped_page:
  "valid_cards campus_swiped (swiped_ids_of campus_swiped oid0)
     (take (nat 2 * 2) (pool campus_swiped (users campus_swiped ! 0) oid0)) = [card_dora]"
  by code_simp

theorem discover_returns_from_first_page_witness:
  "fst (discover campus_swiped oid0 2) = Inr [card_dora]"
proof -
  have a: "(1::int) \<le> 2" "(2::int) \<le> 50"
    by simp_all
  from campus_swiped_pre have b: "ObjectId oid0 = Inr 0" and c: "0 < length (users campus_swiped)"
    and d: "list_ex (\<lambda>p. p_user_id p = oid0) (profiles campus_swiped)"
    and e: "list_all (\<lambda>p. well_formed_id (p_user_id p)) (profiles campus_swiped)"
    by simp_all
  from discover_returns_from_first_page [OF a b c d e refl refl] campus_swiped_page
  show ?thesis
    by simp
qed

section \<open>Magic links\<close>

lemma get_documents_Nil: "get_documents q xs = [] \<longleftrightarrow> \<not> list_ex q xs"
  using find_one_None [of q xs] by (simp add: find_one_def split: list.splits)

lemma send_magic_link_ok:
  assumes "is_valid_domain (lower e)"
    and "purpose = ''login'' \<or> purpose = ''signup''"
  shows "send_magic_link s \<lparr>sm_email = e, sm_purpose = purpose\<rparr> tok t0
       = (Inr (tok, t0 + MAGIC_TOKEN_TTL),
          s\<lparr>verifications := verifications s @
               [\<lparr>v_email = lower e, v_token = tok, v_purpose = purpose, v_used = False,
                 v_expires_at = t0 + MAGIC_TOKEN_TTL\<rparr>]\<rparr>)"
  using assms by (auto simp: send_magic_link_def Verification_def create_document_def Let_def)

lemma verify_magic_link_pending:
  assumes dom: "is_valid_domain (lower e)"
    and fresh: "\<not> list_ex (\<lambda>v. v_email v = lower e \<and> v_token v = tok \<and> v_used v = False) vs"
    and rec: "v_email v = lower e" "v_token v = tok" "v_used v = False" "t1 \<le> v_expires_at v"
    and st: "verifications s1 = vs @ [v]"
  shows "\<exists>i us. verify_magic_link s1 \<lparr>vm_email = e, vm_token = tok\<rparr> t1
           = (Inr (str_oid i), s1\<lparr>users := us, verifications := vs @ [v\<lparr>v_used := True\<rparr>]\<rparr>)
         \<and> i < length us \<and> u_email (us ! i) = lower e"
proof -
  let ?q = "\<lambda>v. v_email v = lower e \<and> v_token v = tok \<and> v_used v = False"
  from fresh have "get_documents ?q vs = []"
    by (simp add: get_documents_Nil)
  with rec have recs: "get_documents ?q (verifications s1) = [(length vs, v)]"
    by (simp add: st get_documents_append)
  have upd: "update_one (length vs) (\<lambda>v. v\<lparr>v_used := True\<rparr>) (vs @ [v]) = vs @ [v\<lparr>v_used := True\<rparr>]"
    by (simp add: update_one_def)
  show ?thesis
  proof (cases "find_one (\<lambda>u. u_email u = lower e) (users s1)")
    case None
    have "verify_magic_link s1 \<lparr>vm_email = e, vm_token = tok\<rparr> t1
        = (Inr (str_oid (length (users s1))),
           s1\<lparr>users := users s1 @ [User (lower e)],
               verifications := vs @ [v\<lparr>v_used := True\<rparr>]\<rparr>)"
      using dom recs rec None upd
      by (simp add: verify_magic_link_def create_document_def st)
    moreover have "u_email ((users s1 @ [User (lower e)]) ! length (users s1)) = lower e"
      by (simp add: User_def)
    ultimately show ?thesis
      by (intro exI [of _ "length (users s1)"] exI [of _ "users s1 @ [User (lower e)]"]) simp
  next
    case (Some d)
    have "verify_magic_link s1 \<lparr>vm_email = e, vm_token = tok\<rparr> t1
        = (Inr (str_oid (fst d)), s1\<lparr>users := users s1, verifications := vs @ [v\<lparr>v_used := True\<rparr>]\<rparr>)"
      using dom recs rec Some upd
      by (simp add: verify_magic_link_def st)
    moreover from find_one_Some [OF Some]
    have "fst d < length (users s1)" "u_email (users s1 ! fst d) = lower e"
      by simp_all
    ultimately show ?thesis
      by (intro exI [of _ "fst d"] exI [of _ "users s1"]) simp
  qed
qed

lemma verify_magic_link_used:
  assumes dom: "is_valid_domain (lower e)"
    and "\<not> list_ex (\<lambda>v. v_email v = lower e \<and> v_token v = tok \<and> v_used v = False)
            (verifications s2)"
  shows "verify_magic_link s2 \<lparr>vm_email = e, vm_token = tok\<rparr> t2
       = (Inl (HTTPException 400 ''Invalid or used token''), s2)"
  using assms by (simp add: verify_magic_link_def get_documents_Nil)

text \<open>
  Claim C5. For an email of an allowed domain (and a purpose the \<open>Verification\<close> schema
  admits), \<open>send_magic_link\<close> issues the token; when that token is not already pending
  for the email (it is freshly drawn) and the clock has not passed the expiry,
  \<open>verify_magic_link\<close> with the same email and token succeeds and returns the id of a
  user record with that email. Any later \<open>verify_magic_link\<close> with the same email and
  token fails with the 400 error "Invalid or used token" and returns the store as it
  was, so it creates and modifies no user record.
\<close>

theorem magic_link_round_trip:
  assumes "is_valid_domain (lower e)"
    and "purpose = ''login'' \<or> purpose = ''signup''"
    and "\<not> list_ex (\<lambda>v. v_email v = lower e \<and> v_token v = tok \<and> v_used v = False)
            (verifications s)"
    and "t1 \<le> t0 + MAGIC_TOKEN_TTL"
    and "s1 = snd (send_magic_link s \<lparr>sm_email = e, sm_purpose = purpose\<rparr> tok t0)"
    and "s2 = snd (verify_magic_link s1 \<lparr>vm_email = e, vm_token = tok\<rparr> t1)"
  shows "fst (send_magic_link s \<lparr>sm_email = e, sm_purpose = purpose\<rparr> tok t0)
           = Inr (tok, t0 + MAGIC_TOKEN_TTL)
       \<and> (\<exists>i. fst (verify_magic_link s1 \<lparr>vm_email = e, vm_token = tok\<rparr> t1) = Inr (str_oid i)
              \<and> i < length (users s2) \<and> u_email (users s2 ! i) = lower e)
       \<and> verify_magic_link s2 \<lparr>vm_email = e, vm_token = tok\<rparr> t2
           = (Inl (HTTPException 400 ''Invalid or used token''), s2)"
proof -
  let ?v = "\<lparr>v_email = lower e, v_token = tok, v_purpose = purpose, v_used = False,
             v_expires_at = t0 + MAGIC_TOKEN_TTL\<rparr>"
  note sent = send_magic_link_ok [OF assms(1,2), of s tok t0]
  from sent assms(5) have st: "verifications s1 = verifications s @ [?v]"
    by simp
  from verify_magic_link_pending [OF assms(1,3) _ _ _ _ st, of t1] assms(4)
  obtain i us where v1: "verify_magic_link s1 \<lparr>vm_email = e, vm_token = tok\<rparr> t1
      = (Inr (str_oid i), s1\<lparr>users := us, verifications := verifications s @ [?v\<lparr>v_used := True\<rparr>]\<rparr>)"
    and i: "i < length us" "u_email (us ! i) = lower e"
    by auto
  from v1 assms(6) have s2: "s2 = s1\<lparr>users := us,
      verifications := verifications s @ [?v\<lparr>v_used := True\<rparr>]\<rparr>"
    by simp
  with assms(3) have "\<not> list_ex (\<lambda>v. v_email v = lower e \<and> v_token v = tok \<and> v_used v = False)
      (verifications s2)"
    by simp
  from verify_magic_link_used [OF assms(1) this, of t2] sent v1 s2 i show ?thesis
    by auto
qed

lemma anna_domain_allowed: "is_valid_domain (lower ''Anna@Polito.IT'')"
  by code_simp

theorem magic_link_round_trip_witness:
  "fst (send_magic_link store0 \<lparr>sm_email = ''Anna@Polito.IT'', sm_purpose = ''login''\<rparr>
          ''token-a'' 1700000000) = Inr (''token-a'', 1700000900)
   \<and> verify_magic_link verified_anna \<lparr>vm_email = ''Anna@Polito.IT'', vm_token = ''token-a''\<rparr>
        1700000901
     = (Inl (HTTPException 400 ''Invalid or used token''), verified_anna)"
proof -
  have p: "''login'' = ''login'' \<or> ''login'' = ''signup''"
    by simp
  have f: "\<not> list_ex (\<lambda>v. v_email v = lower ''Anna@Polito.IT'' \<and> v_token v = ''token-a''
                \<and> v_used v = False) (verifications store0)"
    by (simp add: store0_def)
  have t: "(1700000900::int) \<le> 1700000000 + MAGIC_TOKEN_TTL"
    by (simp add: MAGIC_TOKEN_TTL_def)
  from magic_link_round_trip [OF anna_domain_allowed p f t sent_anna_def verified_anna_def,
      of 1700000901]
  show ?thesis
    by (simp add: MAGIC_TOKEN_TTL_def)
qed

section \<open>Sending a message\<close>

lemma send_message_participant:
  assumes "ObjectId (match_id payload) = Inr oid"
    and "oid < length (matches s)"
    and "user_id = user_a (matches s ! oid) \<or> user_id = user_b (matches s ! oid)"
  shows "send_message s user_id payload
       = (Inr ''sent'',
          s\<lparr>messages := messages s @
               [\<lparr>m_match_id = match_id payload, m_sender_id = user_id,
                 m_text = msg_text payload\<rparr>]\<rparr>)"
  using assms by (auto simp: send_message_def find_by_id_def create_document_def)

text \<open>
  Claim C6 (the code departs from it). The schema \<open>Message\<close> bounds \<open>text\<close> by 1000
  characters, but \<open>send_message\<close> stores a plain dictionary and never builds the schema
  model: a participant's text of 1001 characters is accepted and appended.
\<close>

theorem send_message_accepts_1001_characters:
  "length (replicate 1001 (CHR ''x'')) = 1001
   \<and> send_message store_matched oid0 \<lparr>match_id = oid0, msg_text = replicate 1001 (CHR ''x'')\<rparr>
     = (Inr ''sent'',
        store_matched\<lparr>messages :=
          [\<lparr>m_match_id = oid0, m_sender_id = oid0, m_text = replicate 1001 (CHR ''x'')\<rparr>]\<rparr>)"
proof -
  have a: "ObjectId (match_id \<lparr>match_id = oid0, msg_text = replicate 1001 (CHR ''x'')\<rparr>) = Inr 0"
    by (simp add: ObjectId_oid0)
  have b: "0 < length (matches store_matched)"
    by (simp add: store_matched_def)
  have c: "oid0 = user_a (matches store_matched ! 0) \<or> oid0 = user_b (matches store_matched ! 0)"
    by (simp add: store_matched_def)
  have d: "messages store_matched = []"
    by (simp add: store_matched_def store0_def)
  show ?thesis
    using send_message_participant [OF a b c] d by simp
qed

section \<open>Saving a profile\<close>

lemma create_or_update_profile_rejects_photos:
  assumes "length (photos payload) < MIN_PHOTOS \<or> length (photos payload) > MAX_PHOTOS"
  shows "\<exists>detail. create_or_update_profile s user_id payload now
           = (Inl (HTTPException 400 detail), s)"
  using assms by (auto simp: create_or_update_profile_def)

lemma create_or_update_profile_error_keeps_store:
  assumes "fst (create_or_update_profile s user_id payload now) = Inl e"
  shows "snd (create_or_update_profile s user_id payload now) = s"
  using assms
  by (auto simp: create_or_update_profile_def Let_def split: if_splits sum.splits option.splits)

lemma create_or_update_profile_accepts:
  assumes len: "MIN_PHOTOS \<le> length (photos payload)" "length (photos payload) \<le> MAX_PHOTOS"
    and bio: "\<not> bio_prohibited (bio payload)"
    and usr: "user_exists s user_id"
  shows "fst (create_or_update_profile s user_id payload now) = Inr ''Profile saved''
       \<and> list_ex (\<lambda>p. p_user_id p = user_id \<and> p_photos p = photos_docs_of (photos payload))
           (profiles (snd (create_or_update_profile s user_id payload now)))"
proof -
  from usr obtain oid where oid: "ObjectId user_id = Inr oid" and lt: "oid < length (users s)"
    by (auto simp: user_exists_def split: sum.splits)
  from bio have nb: "\<not> (case bio payload of None \<Rightarrow> False
      | Some b \<Rightarrow> b \<noteq> [] \<and> list_ex (\<lambda>w. contains (lower b) w) BANNED_WORDS)"
    by (simp add: bio_prohibited_def)
  show ?thesis
  proof (cases "find_one (\<lambda>p. p_user_id p = user_id) (profiles s)")
    case None
    with len nb oid lt show ?thesis
      by (simp add: create_or_update_profile_def find_by_id_def create_document_def
          photos_docs_of_def Let_def)
  next
    case (Some d)
    from find_one_Some [OF Some] have i: "fst d < length (profiles s)"
      by simp
    then have "(profiles s)[fst d := set_profile_doc user_id payload
                 (photos_docs_of (photos payload)) now (profiles s ! fst d)]
               ! fst d \<in> set ((profiles s)[fst d := set_profile_doc user_id payload
                 (photos_docs_of (photos payload)) now (profiles s ! fst d)])"
      by (intro nth_mem) simp
    with i have "list_ex (\<lambda>p. p_user_id p = user_id \<and> p_photos p = photos_docs_of (photos payload))
        ((profiles s)[fst d := set_profile_doc user_id payload
                 (photos_docs_of (photos payload)) now (profiles s ! fst d)])"
      unfolding list_ex_iff by (auto simp: set_profile_doc_def intro!: bexI)
    with Some len nb oid lt i show ?thesis
      by (simp add: create_or_update_profile_def find_by_id_def update_one_def
          photos_docs_of_def Let_def)
  qed
qed

text \<open>
  Claim C7. \<open>create_or_update_profile\<close> rejects every request whose photo list has fewer
  than 3 or more than 8 entries with a 400 error (InvalidArgument) and an unchanged store;
  it accepts a list of 3 to 8 photos, for an existing user and a bio without a banned
  word, and then stores a profile of that user with these photos; and whenever it ends in
  an error, of whatever kind, the store it returns is the store it was given: neither the
  user record nor the profile record is touched.
\<close>

theorem profile_photo_bounds:
  "(length (photos payload) < 3 \<or> length (photos payload) > 8 \<longrightarrow>
      (\<exists>detail. create_or_update_profile s user_id payload now
                  = (Inl (HTTPException 400 detail), s)))
   \<and> (3 \<le> length (photos payload) \<and> length (photos payload) \<le> 8
        \<and> \<not> bio_prohibited (bio payload) \<and> user_exists s user_id \<longrightarrow>
      fst (create_or_update_profile s user_id payload now) = Inr ''Profile saved''
      \<and> list_ex (\<lambda>p. p_user_id p = user_id \<and> p_photos p = photos_docs_of (photos payload))
          (profiles (snd (create_or_update_profile s user_id payload now))))
   \<and> (\<forall>e. fst (create_or_update_profile s user_id payload now) = Inl e \<longrightarrow>
      snd (create_or_update_profile s user_id payload now) = s)"
  using create_or_update_profile_rejects_photos [of payload s user_id now]
    create_or_update_profile_accepts [of payload s user_id now]
    create_or_update_profile_error_keeps_store [of s user_id payload now]
  by (simp add: MIN_PHOTOS_def MAX_PHOTOS_def)

lemma user_exists_store_anna: "user_exists store_anna oid0"
  by code_simp

lemma bio_allowed_hello: "\<not> bio_prohibited (Some ''hello'')"
  by code_simp

theorem profile_photo_bounds_witness:
  "(\<exists>detail. create_or_update_profile store_anna oid0 (request_photos 2) 1700000000
               = (Inl (HTTPException 400 detail), store_anna))
   \<and> (\<exists>detail. create_or_update_profile store_anna oid0 (request_photos 9) 1700000000
               = (Inl (HTTPException 400 detail), store_anna))
   \<and> fst (create_or_update_profile store_anna oid0 (request_photos 3) 1700000000)
       = Inr ''Profile saved''
   \<and> fst (create_or_update_profile store_anna oid0 (request_photos 8) 1700000000)
       = Inr ''Profile saved''"
  using profile_photo_bounds [of "request_photos 2" store_anna oid0 1700000000]
    profile_photo_bounds [of "request_photos 9" store_anna oid0 1700000000]
    profile_photo_bounds [of "request_photos 3" store_anna oid0 1700000000]
    profile_photo_bounds [of "request_photos 8" store_anna oid0 1700000000]
    user_exists_store_anna bio_allowed_hello
  by (simp add: request_photos_def)

section \<open>Messaging access control\<close>

text \<open>
  Claim C8. For every match of the store and every caller who is neither its \<open>user_a\<close> nor
  its \<open>user_b\<close>, \<open>list_messages\<close> and \<open>send_message\<close> both fail with the 404 error
  "Match not found" (NotFound, not 403 Forbidden), and \<open>send_message\<close> returns the store
  as it was: no message record is appended.
\<close>

theorem messaging_requires_participant:
  assumes "ObjectId mid = Inr oid"
    and "oid < length (matches s)"
    and "user_id \<noteq> user_a (matches s ! oid)"
    and "user_id \<noteq> user_b (matches s ! oid)"
  shows "list_messages s user_id mid = (Inl (HTTPException 404 ''Match not found''), s)
       \<and> send_message s user_id \<lparr>match_id = mid, msg_text = txt\<rparr>
           = (Inl (HTTPException 404 ''Match not found''), s)"
  using assms by (simp add: list_messages_def send_message_def find_by_id_def)

theorem messaging_requires_participant_witness:
  "list_messages (store0\<lparr>matches := [\<lparr>user_a = oid0, user_b = oid1\<rparr>]\<rparr>) oid2 oid0
     = (Inl (HTTPException 404 ''Match not found''),
        store0\<lparr>matches := [\<lparr>user_a = oid0, user_b = oid1\<rparr>]\<rparr>)
   \<and> send_message (store0\<lparr>matches := [\<lparr>user_a = oid0, user_b = oid1\<rparr>]\<rparr>) oid2
        \<lparr>match_id = oid0, msg_text = ''hello''\<rparr>
     = (Inl (HTTPException 404 ''Match not found''),
        store0\<lparr>matches := [\<lparr>user_a = oid0, user_b = oid1\<rparr>]\<rparr>)"
proof -
  let ?s = "store0\<lparr>matches := [\<lparr>user_a = oid0, user_b = oid1\<rparr>]\<rparr>"
  have a: "0 < length (matches ?s)" by simp
  have b: "oid2 \<noteq> user_a (matches ?s ! 0)" by (simp add: oid0_def oid2_def)
  have c: "oid2 \<noteq> user_b (matches ?s ! 0)" by (simp add: oid1_def oid2_def)
  show ?thesis
    using messaging_requires_participant [OF ObjectId_oid0 a b c] by simp
qed

section \<open>Swiping on oneself\<close>

text \<open>
  Claim C9. For every user \<open>u\<close>, \<open>swipe\<close> with \<open>target_id = u\<close> and direction "right"
  reports \<open>match = true\<close>: the swipe record the call has just appended answers the
  reciprocal lookup. When no match of \<open>u\<close> with \<open>u\<close> is stored yet (the first such call),
  the call appends the match record whose two participants are both \<open>u\<close>; otherwise the
  match collection stays as it is.
\<close>

theorem self_swipe_matches:
  "fst (swipe s u \<lparr>target_id = u, direction = ''right''\<rparr>) = Inr True
   \<and> find_one (\<lambda>w. s_swiper_id w = u \<and> s_target_id w = u \<and> s_direction w = ''right'')
       (swipes s @ [\<lparr>s_swiper_id = u, s_target_id = u, s_direction = ''right''\<rparr>]) \<noteq> None
   \<and> matches (snd (swipe s u \<lparr>target_id = u, direction = ''right''\<rparr>))
       = (if list_ex (\<lambda>m. user_a m = u \<and> user_b m = u) (matches s)
          then matches s
          else matches s @ [\<lparr>user_a = u, user_b = u\<rparr>])"
proof -
  let ?q = "\<lambda>w. s_swiper_id w = u \<and> s_target_id w = u \<and> s_direction w = ''right''"
  let ?new = "\<lparr>s_swiper_id = u, s_target_id = u, s_direction = ''right''\<rparr>"
  have recip: "find_one ?q (swipes s @ [?new]) \<noteq> None"
    by (simp add: find_one_None)
  then obtain r where r: "find_one ?q (swipes s @ [?new]) = Some r"
    by auto
  show ?thesis
  proof (cases "find_one (\<lambda>m. user_a m = u \<and> user_b m = u) (matches s)")
    case None
    then have "\<not> list_ex (\<lambda>m. user_a m = u \<and> user_b m = u) (matches s)"
      by (simp add: find_one_None)
    with None r recip show ?thesis
      by (simp add: swipe_def create_document_def)
  next
    case (Some m)
    then have "list_ex (\<lambda>m. user_a m = u \<and> user_b m = u) (matches s)"
      using find_one_None [of "\<lambda>m. user_a m = u \<and> user_b m = u" "matches s"] by simp
    with Some r recip show ?thesis
      by (simp add: swipe_def create_document_def)
  qed
qed

theorem self_swipe_matches_witness:
  "fst (swipe store0 oid0 \<lparr>target_id = oid0, direction = ''right''\<rparr>) = Inr True
   \<and> matches (snd (swipe store0 oid0 \<lparr>target_id = oid0, direction = ''right''\<rparr>))
       = [\<lparr>user_a = oid0, user_b = oid0\<rparr>]"
  using self_swipe_matches [of store0 oid0] by (simp add: store0_def)

section \<open>Listing matches\<close>

lemma list_matches_loop_Cons:
  "list_matches_loop s user_id (m # ms) cleaned =
     (case ObjectId (counterpart user_id (snd m)) of
        Inl e \<Rightarrow> Inl e
      | Inr oid \<Rightarrow>
          (case find_by_id oid (users s) of
             None \<Rightarrow> Inl AttributeError
           | Some u \<Rightarrow>
               list_matches_loop s user_id ms
                 (cleaned @
                    [\<lparr>ms_match_id = str_oid (fst m), ms_user_id = counterpart user_id (snd m),
                      ms_first_name = u_first_name u,
                      ms_photos =
                        (case find_one (\<lambda>p. p_user_id p = counterpart user_id (snd m))
                                (profiles s) of
                           None \<Rightarrow> [] | Some p \<Rightarrow> p_photos (snd p))\<rparr>])))"
  by (cases "user_a (snd m) = user_id")
    (simp_all add: counterpart_def Let_def split: sum.splits option.splits)

lemma list_matches_loop_ok:
  "list_all (\<lambda>m. user_exists s (counterpart user_id (snd m))) ms \<Longrightarrow>
   \<exists>r. list_matches_loop s user_id ms cleaned = Inr r
     \<and> map ms_user_id r = map ms_user_id cleaned @ map (\<lambda>m. counterpart user_id (snd m)) ms"
proof (induction ms arbitrary: cleaned)
  case Nil
  then show ?case by simp
next
  case (Cons m ms)
  from Cons.prems obtain oid where oid: "ObjectId (counterpart user_id (snd m)) = Inr oid"
    and lt: "oid < length (users s)"
    by (auto simp: user_exists_def split: sum.splits)
  from Cons.prems have rest: "list_all (\<lambda>m. user_exists s (counterpart user_id (snd m))) ms"
    by simp
  define entry where "entry =
      \<lparr>ms_match_id = str_oid (fst m), ms_user_id = counterpart user_id (snd m),
       ms_first_name = u_first_name (users s ! oid),
       ms_photos = (case find_one (\<lambda>p. p_user_id p = counterpart user_id (snd m)) (profiles s) of
                      None \<Rightarrow> [] | Some p \<Rightarrow> p_photos (snd p))\<rparr>"
  have step: "list_matches_loop s user_id (m # ms) cleaned
      = list_matches_loop s user_id ms (cleaned @ [entry])"
    using oid lt by (simp add: list_matches_loop_Cons find_by_id_def entry_def
        del: list_matches_loop.simps)
  from Cons.IH [OF rest, of "cleaned @ [entry]"] obtain r
    where r: "list_matches_loop s user_id ms (cleaned @ [entry]) = Inr r"
      and m: "map ms_user_id r
        = map ms_user_id (cleaned @ [entry]) @ map (\<lambda>m. counterpart user_id (snd m)) ms"
    by blast
  have "ms_user_id entry = counterpart user_id (snd m)"
    by (simp add: entry_def)
  with r m step show ?case
    by simp
qed

lemma list_matches_loop_raises:
  "\<not> list_all (\<lambda>m. user_exists s (counterpart user_id (snd m))) ms \<Longrightarrow>
   list_matches_loop s user_id ms cleaned = Inl InvalidId
   \<or> list_matches_loop s user_id ms cleaned = Inl AttributeError"
proof (induction ms arbitrary: cleaned)
  case Nil
  then show ?case by simp
next
  case (Cons m ms)
  show ?case
  proof (cases "user_exists s (counterpart user_id (snd m))")
    case True
    with Cons.prems have "\<not> list_all (\<lambda>m. user_exists s (counterpart user_id (snd m))) ms"
      by simp
    from Cons.IH [OF this] True show ?thesis
      by (auto simp: list_matches_loop_Cons user_exists_def find_by_id_def
          simp del: list_matches_loop.simps split: sum.splits)
  next
    case False
    then show ?thesis
      by (auto simp: list_matches_loop_Cons user_exists_def find_by_id_def ObjectId_def
          simp del: list_matches_loop.simps split: sum.splits)
  qed
qed

lemma list_matches_loop_arg:
  "map snd (get_documents (\<lambda>m. user_a m = user_id \<or> user_b m = user_id) (matches s))
     = matches_of s user_id"
  by (simp add: map_snd_get_documents matches_of_def)

lemma counterparts_ok_loop:
  "counterparts_ok s user_id
     \<longleftrightarrow> list_all (\<lambda>m. user_exists s (counterpart user_id (snd m)))
           (get_documents (\<lambda>m. user_a m = user_id \<or> user_b m = user_id) (matches s))"
  unfolding counterparts_ok_def list_matches_loop_arg [symmetric] by (simp add: list_all_iff)

lemma list_matches_ok:
  assumes "counterparts_ok s user_id"
  shows "\<exists>r. fst (list_matches s user_id) = Inr r
           \<and> map ms_user_id r = map (counterpart user_id) (matches_of s user_id)"
proof -
  let ?ms = "get_documents (\<lambda>m. user_a m = user_id \<or> user_b m = user_id) (matches s)"
  from assms list_matches_loop_ok [of s user_id ?ms "[]"]
  obtain r where "list_matches_loop s user_id ?ms [] = Inr r"
    and "map ms_user_id r = map (\<lambda>m. counterpart user_id (snd m)) ?ms"
    by (auto simp: counterparts_ok_loop)
  moreover have "map (\<lambda>m. counterpart user_id (snd m)) ?ms
      = map (counterpart user_id) (map snd ?ms)"
    by simp
  ultimately show ?thesis
    by (simp add: list_matches_def list_matches_loop_arg)
qed

lemma list_matches_raises:
  assumes "\<not> counterparts_ok s user_id"
  shows "fst (list_matches s user_id) = Inl InvalidId
       \<or> fst (list_matches s user_id) = Inl AttributeError"
  using assms list_matches_loop_raises [of s user_id
      "get_documents (\<lambda>m. user_a m = user_id \<or> user_b m = user_id) (matches s)" "[]"]
  by (simp add: counterparts_ok_loop list_matches_def)

text \<open>
  Claim C10. \<open>list_matches\<close> returns a structured result exactly when, for every match
  that contains \<open>user_id\<close>, the counterpart's id is a well-formed object id with an
  existing user record; the result then lists these counterparts in storage order. When
  some counterpart's id is malformed or has no user record, the call ends in an unhandled
  \<open>InvalidId\<close> or \<open>AttributeError\<close>, which is no structured 404. The store is only read.
\<close>

theorem list_matches_needs_counterparts:
  "(if counterparts_ok s user_id
    then \<exists>r. fst (list_matches s user_id) = Inr r
           \<and> map ms_user_id r = map (counterpart user_id) (matches_of s user_id)
    else fst (list_matches s user_id) = Inl InvalidId
       \<or> fst (list_matches s user_id) = Inl AttributeError)
   \<and> snd (list_matches s user_id) = s"
proof (cases "counterparts_ok s user_id")
  case True
  with list_matches_ok [OF True] show ?thesis
    by (simp add: list_matches_def)
next
  case False
  with list_matches_raises [OF False] show ?thesis
    by (simp add: list_matches_def)
qed

theorem list_matches_needs_counterparts_witness:
  "\<not> counterparts_ok store_dangling oid0
   \<and> (fst (list_matches store_dangling oid0) = Inl InvalidId
      \<or> fst (list_matches store_dangling oid0) = Inl AttributeError)
   \<and> snd (list_matches store_dangling oid0) = store_dangling"
proof -
  have "\<not> counterparts_ok store_dangling oid0"
    by code_simp
  then show ?thesis
    using list_matches_needs_counterparts [of store_dangling oid0] by simp
qed

section \<open>Swipe symmetry\<close>

















end
